theory Spec2Isabelle
  imports Main "HOL-Library.Word" "HOL-Library.Sublist"
begin

section \<open>Bytes, buffers and the DataView setters\<close>

text \<open>
  The program is \<^verbatim>\<open>src/utils/convert.ts\<close>. An \<^verbatim>\<open>ArrayBuffer\<close>, a
  \<^verbatim>\<open>Uint8Array\<close> and the \<^verbatim>\<open>data\<close> of an \<^verbatim>\<open>ImageData\<close> are lists of
  8-bit words. A JavaScript \<^verbatim>\<open>number\<close> that holds an integer is an \<open>int\<close>; the
  model is exact as long as the values stay below \<open>2 ^ 53\<close> in magnitude, where the
  doubles of JavaScript are exact too.
\<close>

type_synonym byte = "8 word"

datatype error =
    RangeError                 \<comment> \<open>thrown by a DataView setter or \<^verbatim>\<open>TypedArray.set\<close> out of bounds\<close>
  | OnlyPngSupported           \<comment> \<open>\<^verbatim>\<open>Error('Only PNG files are supported')\<close>\<close>
  | ImageLoadError             \<comment> \<open>the rejection raised by \<^verbatim>\<open>image.onerror\<close>\<close>
  | NoCanvasContext            \<comment> \<open>\<^verbatim>\<open>Error('Failed to get canvas context')\<close>\<close>
  | PlatformError string       \<comment> \<open>a DOMException thrown by the canvas API\<close>

text \<open>Sequencing of steps that may throw: the first exception ends the sequence.\<close>

fun and_then :: "error + 'a \<Rightarrow> ('a \<Rightarrow> error + 'b) \<Rightarrow> error + 'b" where
  "and_then (Inl e) f = Inl e"
| "and_then (Inr x) f = f x"

text \<open>
  \<^verbatim>\<open>new ArrayBuffer(n)\<close> and \<^verbatim>\<open>new Uint8Array(n)\<close>: \<open>n\<close> zero bytes. An engine
  refuses a length past its limit with a \<^verbatim>\<open>RangeError\<close>; the limit is the engine's
  and is not modelled, so that the model speaks of the buffers an engine can allocate.
\<close>

definition ArrayBuffer :: "nat \<Rightarrow> byte list" where
  "ArrayBuffer n = replicate n 0"

definition Uint8Array :: "nat \<Rightarrow> byte list" where
  "Uint8Array n = replicate n 0"

text \<open>
  The conversions \<^verbatim>\<open>ToUint8\<close>, \<^verbatim>\<open>ToUint16\<close>, \<^verbatim>\<open>ToUint32\<close> and \<^verbatim>\<open>ToInt32\<close> of a
  setter reduce an integer modulo \<open>2 ^ (8 * n)\<close>; the \<open>n\<close> bytes stored are the same
  for the signed and the unsigned setter of one width.
\<close>

definition le_bytes :: "nat \<Rightarrow> int \<Rightarrow> byte list" where
  "le_bytes n v = map (\<lambda>k. word_of_int ((v mod 2 ^ (8 * n)) div 2 ^ (8 * k))) [0..<n]"

definition value_bytes :: "nat \<Rightarrow> int \<Rightarrow> bool \<Rightarrow> byte list" where
  "value_bytes n v littleEndian = (if littleEndian then le_bytes n v else rev (le_bytes n v))"

text \<open>Overwriting \<open>buf\<close> from \<open>byteOffset\<close> on with \<open>bs\<close>, which must fit.\<close>

definition store_bytes :: "byte list \<Rightarrow> nat \<Rightarrow> byte list \<Rightarrow> byte list" where
  "store_bytes buf byteOffset bs =
     take byteOffset buf @ bs @ drop (byteOffset + length bs) buf"

text \<open>
  A DataView setter throws a \<^verbatim>\<open>RangeError\<close> when the value does not fit between
  \<open>byteOffset\<close> and the end of the view, and stores the bytes otherwise.
\<close>

definition set_view :: "nat \<Rightarrow> byte list \<Rightarrow> nat \<Rightarrow> int \<Rightarrow> bool \<Rightarrow> error + byte list" where
  "set_view n view byteOffset v littleEndian =
     (if byteOffset + n \<le> length view
      then Inr (store_bytes view byteOffset (value_bytes n v littleEndian))
      else Inl RangeError)"

definition setUint8 :: "byte list \<Rightarrow> nat \<Rightarrow> int \<Rightarrow> error + byte list" where
  "setUint8 view byteOffset v = set_view 1 view byteOffset v True"

definition setUint16 :: "byte list \<Rightarrow> nat \<Rightarrow> int \<Rightarrow> bool \<Rightarrow> error + byte list" where
  "setUint16 view byteOffset v littleEndian = set_view 2 view byteOffset v littleEndian"

definition setUint32 :: "byte list \<Rightarrow> nat \<Rightarrow> int \<Rightarrow> bool \<Rightarrow> error + byte list" where
  "setUint32 view byteOffset v littleEndian = set_view 4 view byteOffset v littleEndian"

definition setInt32 :: "byte list \<Rightarrow> nat \<Rightarrow> int \<Rightarrow> bool \<Rightarrow> error + byte list" where
  "setInt32 view byteOffset v littleEndian = set_view 4 view byteOffset v littleEndian"

text \<open>
  The readers of a DataView, little-endian, used to state what a field holds:
  \<open>getUint16\<close> and \<open>getUint32\<close> read an unsigned value, \<open>getInt32\<close> reads the same
  four bytes as two's complement.
\<close>

definition getUint16 :: "byte list \<Rightarrow> nat \<Rightarrow> int" where
  "getUint16 view byteOffset =
     uint (view ! byteOffset) + 256 * uint (view ! (byteOffset + 1))"

definition getUint32 :: "byte list \<Rightarrow> nat \<Rightarrow> int" where
  "getUint32 view byteOffset =
     uint (view ! byteOffset) + 256 * uint (view ! (byteOffset + 1))
       + 65536 * uint (view ! (byteOffset + 2)) + 16777216 * uint (view ! (byteOffset + 3))"

definition getInt32 :: "byte list \<Rightarrow> nat \<Rightarrow> int" where
  "getInt32 view byteOffset =
     (let u = getUint32 view byteOffset in if u < 2147483648 then u else u - 4294967296)"

section \<open>The header builders\<close>

text \<open>\<^verbatim>\<open>createBmpFileHeader(imageSize)\<close>, lines 6 to 25.\<close>

definition createBmpFileHeader :: "int \<Rightarrow> error + byte list" where
  "createBmpFileHeader imageSize =
     and_then (setUint8 (ArrayBuffer 14) 0 0x42) (\<lambda>view.
     and_then (setUint8 view 1 0x4D) (\<lambda>view.
     and_then (setUint32 view 2 (54 + imageSize) True) (\<lambda>view.
     and_then (setUint16 view 6 0 True) (\<lambda>view.
     and_then (setUint16 view 8 0 True) (\<lambda>view.
     setUint32 view 10 54 True)))))"

text \<open>\<^verbatim>\<open>createBmpInfoHeader(width, height)\<close>, lines 30 to 62.\<close>

definition createBmpInfoHeader :: "int \<Rightarrow> int \<Rightarrow> error + byte list" where
  "createBmpInfoHeader width height =
     and_then (setUint32 (ArrayBuffer 40) 0 40 True) (\<lambda>view.
     and_then (setInt32 view 4 width True) (\<lambda>view.
     and_then (setInt32 view 8 height True) (\<lambda>view.
     and_then (setUint16 view 12 1 True) (\<lambda>view.
     and_then (setUint16 view 14 32 True) (\<lambda>view.
     and_then (setUint32 view 16 0 True) (\<lambda>view.
     and_then (setUint32 view 20 (width * height * 4) True) (\<lambda>view.
     and_then (setInt32 view 24 2835 True) (\<lambda>view.
     and_then (setInt32 view 28 2835 True) (\<lambda>view.
     and_then (setUint32 view 32 0 True) (\<lambda>view.
     setUint32 view 36 0 True))))))))))"

section \<open>The pixel transcoder\<close>

text \<open>
  An \<^verbatim>\<open>ImageData\<close>: its \<^verbatim>\<open>width\<close> and \<^verbatim>\<open>height\<close> are unsigned integers and its
  \<^verbatim>\<open>data\<close> a \<^verbatim>\<open>Uint8ClampedArray\<close>.
\<close>

record ImageData =
  width :: nat
  height :: nat
  data :: "byte list"

text \<open>
  Reading \<^verbatim>\<open>data[i]\<close> for a store into a \<^verbatim>\<open>Uint8Array\<close>: an index past the end
  reads \<^verbatim>\<open>undefined\<close>, which the store turns into 0. A store past the end of a typed
  array is ignored, which is what \<open>list_update\<close> does.
\<close>

definition read_byte :: "byte list \<Rightarrow> nat \<Rightarrow> byte" where
  "read_byte bs i = (if i < length bs then bs ! i else 0)"

text \<open>
  The inner loop of \<^verbatim>\<open>convertToBGRA\<close> (lines 72 to 84), started at column \<open>x\<close> of
  row \<open>y\<close>. The loop runs for \<open>y < height\<close> only, where \<open>height - 1 - y\<close> on \<open>nat\<close>
  is the number JavaScript computes.
\<close>

function convertToBGRA_row :: "ImageData \<Rightarrow> nat \<Rightarrow> nat \<Rightarrow> byte list \<Rightarrow> byte list" where
  "convertToBGRA_row imageData y x output =
     (if x < width imageData then
        let sourceY = height imageData - 1 - y;
            sourceIndex = (sourceY * width imageData + x) * 4;
            targetIndex = (y * width imageData + x) * 4;
            output = output[targetIndex := read_byte (data imageData) (sourceIndex + 2)];
            output = output[targetIndex + 1 := read_byte (data imageData) (sourceIndex + 1)];
            output = output[targetIndex + 2 := read_byte (data imageData) sourceIndex];
            output = output[targetIndex + 3 := read_byte (data imageData) (sourceIndex + 3)]
        in convertToBGRA_row imageData y (x + 1) output
      else output)"
  by pat_completeness auto
termination
  by (relation "measure (\<lambda>(imageData, y, x, output). width imageData - x)") auto

text \<open>The outer loop (lines 71 to 85), started at row \<open>y\<close>.\<close>

function convertToBGRA_rows :: "ImageData \<Rightarrow> nat \<Rightarrow> byte list \<Rightarrow> byte list" where
  "convertToBGRA_rows imageData y output =
     (if y < height imageData
      then convertToBGRA_rows imageData (y + 1) (convertToBGRA_row imageData y 0 output)
      else output)"
  by pat_completeness auto
termination
  by (relation "measure (\<lambda>(imageData, y, output). height imageData - y)") auto

text \<open>\<^verbatim>\<open>convertToBGRA(imageData)\<close>, lines 67 to 88.\<close>

definition convertToBGRA :: "ImageData \<Rightarrow> byte list" where
  "convertToBGRA imageData =
     convertToBGRA_rows imageData 0 (Uint8Array (width imageData * height imageData * 4))"

text \<open>
  The channel of a source pixel that channel \<open>k\<close> of the destination pixel holds:
  blue and red change places.
\<close>

definition chan :: "nat \<Rightarrow> nat" where
  "chan k = (if k = 0 then 2 else if k = 2 then 0 else k)"

section \<open>Strings\<close>

text \<open>
  \<^verbatim>\<open>s.includes(searchString)\<close>: whether \<open>searchString\<close> occurs in \<open>s\<close> as a
  contiguous run of characters.
\<close>

fun includes_str :: "string \<Rightarrow> string \<Rightarrow> bool" where
  "includes_str [] searchString = (searchString = [])"
| "includes_str (c # cs) searchString =
     (prefix searchString (c # cs) \<or> includes_str cs searchString)"

text \<open>
  \<^verbatim>\<open>s.replace(pattern, replacement)\<close> for a string pattern and a replacement without
  \<^verbatim>\<open>$\<close>: the first occurrence of the pattern is replaced, and a string without an
  occurrence is returned as it is.
\<close>

fun replace :: "string \<Rightarrow> string \<Rightarrow> string \<Rightarrow> string" where
  "replace [] pattern replacement = (if pattern = [] then replacement else [])"
| "replace (c # cs) pattern replacement =
     (if prefix pattern (c # cs) then replacement @ drop (length pattern) (c # cs)
      else c # replace cs pattern replacement)"

section \<open>Files, object URLs and the platform\<close>

text \<open>
  A \<^verbatim>\<open>Blob\<close> is its bytes and its MIME type; a \<^verbatim>\<open>File\<close> is a blob with a name.
\<close>

record Blob =
  bytes :: "byte list"
  type :: string

record File = Blob +
  name :: string

text \<open>
  The part of the browser the function changes: the blobs that
  \<^verbatim>\<open>URL.createObjectURL\<close> has registered, in order, and the object URLs an image load
  was started from. An object URL is the position of its blob in the registry.
\<close>

record World =
  object_urls :: "Blob list"
  image_loads :: "nat list"

definition createObjectURL :: "World \<Rightarrow> Blob \<Rightarrow> nat \<times> World" where
  "createObjectURL world blob =
     (length (object_urls world), world\<lparr>object_urls := object_urls world @ [blob]\<rparr>)"

text \<open>
  The decoder is the browser's, not the repository's, and is a parameter of the model:
  \<^item> \<open>image_load\<close>: the outcome of loading an \<^verbatim>\<open>Image\<close> from the file, the
    \<^verbatim>\<open>width\<close> and \<^verbatim>\<open>height\<close> of the image when \<^verbatim>\<open>onload\<close> fires and \<open>None\<close>
    when \<^verbatim>\<open>onerror\<close> fires;
  \<^item> \<open>canvas_context\<close>: whether \<^verbatim>\<open>canvas.getContext('2d')\<close> returns a context;
  \<^item> \<open>getImageData\<close>: what \<^verbatim>\<open>drawImage\<close> followed by
    \<^verbatim>\<open>getImageData(0, 0, image.width, image.height)\<close> yields, an \<^verbatim>\<open>ImageData\<close> or the
    exception it throws.
\<close>

record Platform =
  image_load :: "File \<Rightarrow> (nat \<times> nat) option"
  canvas_context :: bool
  getImageData :: "File \<Rightarrow> nat \<Rightarrow> nat \<Rightarrow> error + ImageData"

section \<open>The conversion entry point\<close>

text \<open>\<^verbatim>\<open>target.set(source, offset)\<close> of a typed array.\<close>

definition set_array :: "byte list \<Rightarrow> byte list \<Rightarrow> nat \<Rightarrow> error + byte list" where
  "set_array target source offset =
     (if offset + length source \<le> length target
      then Inr (store_bytes target offset source)
      else Inl RangeError)"

text \<open>
  Lines 131 to 142 of \<^verbatim>\<open>convertPngToBmp\<close>: the headers, the pixel data and their
  combination \<^verbatim>\<open>bmpData\<close>.
\<close>

definition bmpData :: "nat \<Rightarrow> nat \<Rightarrow> ImageData \<Rightarrow> error + byte list" where
  "bmpData image_width image_height imageData =
     and_then (createBmpFileHeader (int (length (data imageData)))) (\<lambda>fileHeader.
     and_then (createBmpInfoHeader (int image_width) (int image_height)) (\<lambda>infoHeader.
     let pixelData = convertToBGRA imageData;
         buffer = Uint8Array (length fileHeader + length infoHeader + length pixelData)
     in and_then (set_array buffer fileHeader 0) (\<lambda>buffer.
        and_then (set_array buffer infoHeader (length fileHeader)) (\<lambda>buffer.
        set_array buffer pixelData (length fileHeader + length infoHeader)))))"

record ConvertedFile =
  name :: string
  url :: nat

text \<open>
  The \<^verbatim>\<open>try\<close> block, lines 110 to 147: how it completes, with the value it returns
  or the exception it throws, and the world it leaves.
\<close>

definition try_block ::
  "Platform \<Rightarrow> World \<Rightarrow> File \<Rightarrow> nat \<Rightarrow> (error + ConvertedFile) \<times> World" where
  "try_block platform world file imageUrl =
     (let world = world\<lparr>image_loads := image_loads world @ [imageUrl]\<rparr> in
      case image_load platform file of
        None \<Rightarrow> (Inl ImageLoadError, world)
      | Some (image_width, image_height) \<Rightarrow>
          if \<not> canvas_context platform then (Inl NoCanvasContext, world)
          else
            (case getImageData platform file image_width image_height of
               Inl e \<Rightarrow> (Inl e, world)
             | Inr imageData \<Rightarrow>
                 (case bmpData image_width image_height imageData of
                    Inl e \<Rightarrow> (Inl e, world)
                  | Inr bmp \<Rightarrow>
                      let (u, world) =
                            createObjectURL world \<lparr>bytes = bmp, type = ''image/bmp''\<rparr>
                      in (Inr \<lparr>name = replace (File.name file) ''.png'' ''.bmp'', url = u\<rparr>,
                          world))))"

text \<open>
  \<^verbatim>\<open>convertPngToBmp(file)\<close>, lines 100 to 154. The \<^verbatim>\<open>finally\<close> block ends in a
  \<^verbatim>\<open>return\<close>, and in JavaScript a \<^verbatim>\<open>return\<close> in \<^verbatim>\<open>finally\<close> replaces the
  completion of the \<^verbatim>\<open>try\<close> block, a returned value and a thrown exception alike.
\<close>

definition convertPngToBmp ::
  "Platform \<Rightarrow> World \<Rightarrow> File \<Rightarrow> (error + ConvertedFile) \<times> World" where
  "convertPngToBmp platform world file =
     (if \<not> includes_str (type file) ''png'' then (Inl OnlyPngSupported, world)
      else
        let (imageUrl, world) = createObjectURL world (Blob.truncate file);
            (completion, world) = try_block platform world file imageUrl;
            (u, world) = createObjectURL world (Blob.truncate file)
        in (Inr \<lparr>name = replace (File.name file) ''.png'' ''.bmp'', url = u\<rparr>, world))"


section \<open>Example inputs\<close>

text \<open>A browser in which no object URL has been created and no image load started.\<close>

definition world0 :: World where
  "world0 = \<lparr>object_urls = [], image_loads = []\<rparr>"

text \<open>A file of type \<^verbatim>\<open>image/png\<close>; its bytes are the signature of a PNG stream.\<close>

definition photo_png :: File where
  "photo_png =
     \<lparr>bytes = [0x89, 0x50, 0x4E, 0x47, 0x0D, 0x0A, 0x1A, 0x0A], type = ''image/png'',
      File.name = ''photo.png''\<rparr>"

text \<open>A platform on which the file decodes to one pixel with RGBA = 10, 20, 30, 40.\<close>

definition decodes_1x1 :: Platform where
  "decodes_1x1 =
     \<lparr>image_load = (\<lambda>f. Some (1, 1)), canvas_context = True,
      getImageData = (\<lambda>f w h. Inr \<lparr>width = w, height = h, data = [10, 20, 30, 40]\<rparr>)\<rparr>"

text \<open>A platform on which the image load fails: \<^verbatim>\<open>onerror\<close> fires.\<close>

definition load_fails :: Platform where
  "load_fails =
     \<lparr>image_load = (\<lambda>f. None), canvas_context = True,
      getImageData = (\<lambda>f w h. Inl (PlatformError ''InvalidStateError''))\<rparr>"


section \<open>Properties of the header builders\<close>

lemma upt_4: "[0..<4] = [0, 1, 2, Suc 2]"
  by (simp add: numeral_eq_Suc upt_rec)

lemma upt_2: "[0..<2] = [0, 1]"
  by (simp add: numeral_eq_Suc upt_rec)

lemma le_bytes_4:
  "le_bytes 4 v =
     [word_of_int v, word_of_int (v mod 4294967296 div 256),
      word_of_int (v mod 4294967296 div 65536), word_of_int (v mod 4294967296 div 16777216)]"
  apply (simp add: le_bytes_def upt_4)
  apply (simp add: word_of_int_eq_iff take_bit_eq_mod mod_mod_cancel)
  done

lemma le_bytes_2: "le_bytes 2 v = [word_of_int v, word_of_int (v mod 65536 div 256)]"
  apply (simp add: le_bytes_def upt_2)
  apply (simp add: word_of_int_eq_iff take_bit_eq_mod mod_mod_cancel)
  done

lemma le_bytes_1: "le_bytes (Suc 0) v = [word_of_int v]"
  apply (simp add: le_bytes_def)
  apply (simp add: word_of_int_eq_iff take_bit_eq_mod mod_mod_cancel)
  done

lemma ArrayBuffer_14: "ArrayBuffer 14 = [0, 0, 0, 0, 0, 0, 0, 0, 0, 0, 0, 0, 0, 0]"
  by (simp add: ArrayBuffer_def numeral_eq_Suc)

lemma ArrayBuffer_40:
  "ArrayBuffer 40 =
     [0, 0, 0, 0, 0, 0, 0, 0, 0, 0, 0, 0, 0, 0, 0, 0, 0, 0, 0, 0,
      0, 0, 0, 0, 0, 0, 0, 0, 0, 0, 0, 0, 0, 0, 0, 0, 0, 0, 0, 0]"
  by (simp add: ArrayBuffer_def numeral_eq_Suc)

lemma length_le_bytes: "length (le_bytes n v) = n"
  by (simp add: le_bytes_def)

lemma setUint8_ok: "byteOffset < length view \<Longrightarrow>
    setUint8 view byteOffset v = Inr (take byteOffset view @ word_of_int v # drop (Suc byteOffset) view)"
  by (simp add: setUint8_def set_view_def value_bytes_def store_bytes_def le_bytes_1 length_le_bytes)

lemma setUint16_ok: "byteOffset + 2 \<le> length view \<Longrightarrow>
    setUint16 view byteOffset v True = Inr (take byteOffset view @ le_bytes 2 v @ drop (byteOffset + 2) view)"
  by (simp add: setUint16_def set_view_def value_bytes_def store_bytes_def length_le_bytes)

lemma setUint32_ok: "byteOffset + 4 \<le> length view \<Longrightarrow>
    setUint32 view byteOffset v True = Inr (take byteOffset view @ le_bytes 4 v @ drop (byteOffset + 4) view)"
  by (simp add: setUint32_def set_view_def value_bytes_def store_bytes_def length_le_bytes)

lemma setInt32_ok: "byteOffset + 4 \<le> length view \<Longrightarrow>
    setInt32 view byteOffset v True = Inr (take byteOffset view @ le_bytes 4 v @ drop (byteOffset + 4) view)"
  by (simp add: setInt32_def set_view_def value_bytes_def store_bytes_def length_le_bytes)

text \<open>
  The two headers of the model in closed form: no setter throws. Past \<open>2 ^ 53\<close> the
  sums and products of the source round, and these forms are the model's only; the
  claims below stay under \<open>2 ^ 32\<close>.
\<close>

lemma createBmpFileHeader_bytes:
  "createBmpFileHeader n =
     Inr ([0x42, 0x4D] @ le_bytes 4 (54 + n) @ [0, 0, 0, 0] @ le_bytes 4 54)"
  apply (simp only: createBmpFileHeader_def ArrayBuffer_14)
  apply (simp add: setUint8_ok)
  apply (simp add: setUint32_ok le_bytes_4)
  apply (simp add: setUint16_ok le_bytes_2)
  apply (simp add: setUint32_ok le_bytes_4)
  done

lemma createBmpInfoHeader_bytes:
  "createBmpInfoHeader w h =
     Inr (le_bytes 4 40 @ le_bytes 4 w @ le_bytes 4 h @ le_bytes 2 1 @ le_bytes 2 32
          @ le_bytes 4 0 @ le_bytes 4 (w * h * 4) @ le_bytes 4 2835 @ le_bytes 4 2835
          @ le_bytes 4 0 @ le_bytes 4 0)"
  apply (simp only: createBmpInfoHeader_def ArrayBuffer_40)
  apply (simp add: setUint32_ok setInt32_ok setUint16_ok le_bytes_4 le_bytes_2)
  done

lemma u32_digits:
  fixes m :: int
  assumes "0 \<le> m" "m < 4294967296"
  shows "m mod 256 + 256 * (m div 256 mod 256) + 65536 * (m div 65536 mod 256)
           + 16777216 * (m div 16777216 mod 256) = m"
proof -
  define b where "b = m div 256"
  define c where "c = b div 256"
  define d where "d = c div 256"
  have m: "m = 256 * b + m mod 256" by (simp add: b_def)
  have b: "b = 256 * c + b mod 256" by (simp add: c_def)
  have c: "c = 256 * d + c mod 256" by (simp add: d_def)
  have c': "m div 65536 = c"
    using zdiv_zmult2_eq[of 256 m 256] by (simp add: b_def c_def)
  have d': "m div 16777216 = d"
    using zdiv_zmult2_eq[of 256 m 65536] c' by (simp add: d_def)
  have r: "0 \<le> m mod 256" "0 \<le> b mod 256" "0 \<le> c mod 256" by simp_all
  have "0 \<le> d" using assms by (simp add: b_def c_def d_def pos_imp_zdiv_nonneg_iff)
  moreover have "d < 256" using assms m b c r by linarith
  ultimately have "d mod 256 = d" by simp
  then show ?thesis using m b c by (simp add: c' d' b_def[symmetric])
qed

lemma u16_digits:
  fixes m :: int
  assumes "0 \<le> m" "m < 65536"
  shows "m mod 256 + 256 * (m div 256 mod 256) = m"
proof -
  define b where "b = m div 256"
  have m: "m = 256 * b + m mod 256" by (simp add: b_def)
  have r: "0 \<le> m mod 256" by simp
  have "0 \<le> b" using assms by (simp add: b_def pos_imp_zdiv_nonneg_iff)
  moreover have "b < 256" using assms m r by linarith
  ultimately have "b mod 256 = b" by simp
  then show ?thesis using m by (simp add: b_def[symmetric])
qed

lemma getUint32_le_bytes:
  "getUint32 (pre @ le_bytes 4 v @ post) (length pre) = v mod 4294967296"
proof -
  have 1: "getUint32 (pre @ le_bytes 4 v @ post) (length pre) =
     v mod 256 + 256 * (v mod 4294967296 div 256 mod 256)
   + 65536 * (v mod 4294967296 div 65536 mod 256) + 16777216 * (v mod 4294967296 div 16777216 mod 256)"
    by (simp add: getUint32_def le_bytes_4 nth_append uint_word_of_int take_bit_eq_mod)
  have 2: "v mod 256 = v mod 4294967296 mod 256"
    by (simp add: mod_mod_cancel)
  have 3: "v mod 4294967296 mod 256 + 256 * (v mod 4294967296 div 256 mod 256)
   + 65536 * (v mod 4294967296 div 65536 mod 256) + 16777216 * (v mod 4294967296 div 16777216 mod 256)
   = v mod 4294967296"
    by (rule u32_digits) simp_all
  show ?thesis by (simp only: 1 2 3)
qed

lemma getUint16_le_bytes:
  "getUint16 (pre @ le_bytes 2 v @ post) (length pre) = v mod 65536"
proof -
  have 1: "getUint16 (pre @ le_bytes 2 v @ post) (length pre) =
     v mod 256 + 256 * (v mod 65536 div 256 mod 256)"
    by (simp add: getUint16_def le_bytes_2 nth_append uint_word_of_int take_bit_eq_mod)
  have 2: "v mod 256 = v mod 65536 mod 256"
    by (simp add: mod_mod_cancel)
  have 3: "v mod 65536 mod 256 + 256 * (v mod 65536 div 256 mod 256) = v mod 65536"
    by (rule u16_digits) simp_all
  show ?thesis by (simp only: 1 2 3)
qed

lemma getInt32_le_bytes:
  "getInt32 (pre @ le_bytes 4 v @ post) (length pre) =
     (if v mod 4294967296 < 2147483648 then v mod 4294967296 else v mod 4294967296 - 4294967296)"
  by (simp only: getInt32_def getUint32_le_bytes Let_def)

lemma getUint32_field:
  "hdr = pre @ le_bytes 4 v @ post \<Longrightarrow> length pre = byteOffset \<Longrightarrow>
   getUint32 hdr byteOffset = v mod 4294967296"
  using getUint32_le_bytes[of pre v post] by simp

lemma getInt32_field:
  "hdr = pre @ le_bytes 4 v @ post \<Longrightarrow> length pre = byteOffset \<Longrightarrow>
   getInt32 hdr byteOffset =
     (if v mod 4294967296 < 2147483648 then v mod 4294967296 else v mod 4294967296 - 4294967296)"
  using getInt32_le_bytes[of pre v post] by simp

lemma getUint16_field:
  "hdr = pre @ le_bytes 2 v @ post \<Longrightarrow> length pre = byteOffset \<Longrightarrow>
   getUint16 hdr byteOffset = v mod 65536"
  using getUint16_le_bytes[of pre v post] by simp

text \<open>
  Claim C5, as amended. For every \<open>pixelDataByteLength\<close> from 0 on with
  \<open>54 + pixelDataByteLength\<close> below \<open>2 ^ 32\<close>, \<^verbatim>\<open>createBmpFileHeader\<close> returns 14
  bytes that begin with 0x42, 0x4D and hold, little-endian, the file size
  \<open>54 + pixelDataByteLength\<close> at offset 2, two zero 16-bit fields at offsets 6 and 8 and
  the pixel data offset 54 at offset 10.
\<close>

theorem createBmpFileHeader_layout:
  assumes "0 \<le> pixelDataByteLength" and "54 + pixelDataByteLength < 4294967296"
  shows "\<exists>hdr. createBmpFileHeader pixelDataByteLength = Inr hdr \<and> length hdr = 14
           \<and> hdr ! 0 = 0x42 \<and> hdr ! 1 = 0x4D
           \<and> getUint32 hdr 2 = 54 + pixelDataByteLength
           \<and> getUint16 hdr 6 = 0 \<and> getUint16 hdr 8 = 0
           \<and> getUint32 hdr 10 = 54"
proof -
  let ?n = pixelDataByteLength
  define hdr where "hdr = [0x42, 0x4D] @ le_bytes 4 (54 + ?n) @ [0, 0, 0, 0] @ le_bytes 4 54"
  have eq: "createBmpFileHeader ?n = Inr hdr"
    by (simp only: createBmpFileHeader_bytes hdr_def)
  have len: "length hdr = 14"
    by (simp add: hdr_def length_le_bytes)
  have magic: "hdr ! 0 = 0x42" "hdr ! 1 = 0x4D"
    by (simp_all add: hdr_def)
  have "getUint32 hdr 2 = (54 + ?n) mod 4294967296"
    by (rule getUint32_field[where pre = "[0x42, 0x4D]" and post = "[0, 0, 0, 0] @ le_bytes 4 54"])
       (simp_all add: hdr_def)
  then have size: "getUint32 hdr 2 = 54 + ?n"
    using assms by simp
  have z: "[0, 0] = le_bytes 2 0"
    by (simp add: le_bytes_2)
  have r0: "getUint16 hdr 6 = 0 mod 65536"
    by (rule getUint16_field[where pre = "[0x42, 0x4D] @ le_bytes 4 (54 + ?n)"
          and post = "[0, 0] @ le_bytes 4 54"])
       (simp_all add: hdr_def length_le_bytes z[symmetric])
  have r1: "getUint16 hdr 8 = 0 mod 65536"
    by (rule getUint16_field[where pre = "[0x42, 0x4D] @ le_bytes 4 (54 + ?n) @ [0, 0]"
          and post = "le_bytes 4 54"])
       (simp_all add: hdr_def length_le_bytes z[symmetric])
  have off: "getUint32 hdr 10 = 54 mod 4294967296"
    by (rule getUint32_field[where pre = "[0x42, 0x4D] @ le_bytes 4 (54 + ?n) @ [0, 0, 0, 0]"
          and post = "[]"])
       (simp_all add: hdr_def length_le_bytes)
  show ?thesis
    using eq len magic size r0 r1 off by simp
qed

theorem createBmpFileHeader_layout_witness:
  "\<exists>hdr. createBmpFileHeader 16 = Inr hdr \<and> length hdr = 14
           \<and> hdr ! 0 = 0x42 \<and> hdr ! 1 = 0x4D
           \<and> getUint32 hdr 2 = 70
           \<and> getUint16 hdr 6 = 0 \<and> getUint16 hdr 8 = 0
           \<and> getUint32 hdr 10 = 54"
  using createBmpFileHeader_layout[of 16] by simp

text \<open>
  Claim C5 as it was stated, for every \<open>pixelDataByteLength\<close>, fails: \<^verbatim>\<open>setUint32\<close>
  stores the size modulo \<open>2 ^ 32\<close>, so that at \<open>pixelDataByteLength = 4294967242\<close> the
  size field is 0 and not \<open>54 + 4294967242\<close>.
\<close>

theorem createBmpFileHeader_size_wraps:
  "createBmpFileHeader 4294967242 = Inr [0x42, 0x4D, 0, 0, 0, 0, 0, 0, 0, 0, 54, 0, 0, 0]
   \<and> getUint32 [0x42, 0x4D, 0, 0, 0, 0, 0, 0, 0, 0, 54, 0, 0, 0] 2 \<noteq> 54 + 4294967242"
  by (simp add: createBmpFileHeader_bytes le_bytes_4 getUint32_def)

text \<open>
  Claim C6, as amended. For every width \<open>W\<close> and height \<open>H\<close> above 0 and below
  \<open>2 ^ 31\<close> with \<open>W * H * 4\<close> below \<open>2 ^ 32\<close>, \<^verbatim>\<open>createBmpInfoHeader\<close> returns 40
  bytes that hold, little-endian, the header size 40 at offset 0, the signed width at
  offset 4 and height at offset 8, the planes 1 at offset 12, the bits per pixel 32 at
  offset 14, the compression 0 at offset 16, the image byte size \<open>W * H * 4\<close> at
  offset 20, the resolution 2835 at offsets 24 and 28 and zero at offsets 32 and 36.
\<close>

theorem createBmpInfoHeader_layout:
  assumes "0 < W" and "0 < H"
    and "W < 2147483648" and "H < 2147483648"
    and "W * H * 4 < 4294967296"
  shows "\<exists>hdr. createBmpInfoHeader W H = Inr hdr \<and> length hdr = 40
           \<and> getUint32 hdr 0 = 40
           \<and> getInt32 hdr 4 = W \<and> getInt32 hdr 8 = H
           \<and> getUint16 hdr 12 = 1 \<and> getUint16 hdr 14 = 32
           \<and> getUint32 hdr 16 = 0
           \<and> getUint32 hdr 20 = W * H * 4
           \<and> getInt32 hdr 24 = 2835 \<and> getInt32 hdr 28 = 2835
           \<and> getUint32 hdr 32 = 0 \<and> getUint32 hdr 36 = 0"
proof -
  let ?w = W and ?h = H
  let ?f0 = "le_bytes 4 40" and ?f4 = "le_bytes 4 ?w" and ?f8 = "le_bytes 4 ?h"
  let ?f12 = "le_bytes 2 1" and ?f14 = "le_bytes 2 32" and ?f16 = "le_bytes 4 0"
  let ?f20 = "le_bytes 4 (?w * ?h * 4)" and ?f24 = "le_bytes 4 2835"
  define hdr where
    "hdr = ?f0 @ ?f4 @ ?f8 @ ?f12 @ ?f14 @ ?f16 @ ?f20 @ ?f24 @ ?f24 @ ?f16 @ ?f16"
  note L = length_le_bytes
  have eq: "createBmpInfoHeader ?w ?h = Inr hdr"
    by (simp only: createBmpInfoHeader_bytes hdr_def)
  have len: "length hdr = 40"
    by (simp add: hdr_def L)
  have a0: "getUint32 hdr 0 = 40 mod 4294967296"
    by (rule getUint32_field[where pre = "[]"
          and post = "?f4 @ ?f8 @ ?f12 @ ?f14 @ ?f16 @ ?f20 @ ?f24 @ ?f24 @ ?f16 @ ?f16"])
       (simp_all add: hdr_def L)
  have a4: "getInt32 hdr 4 =
      (if ?w mod 4294967296 < 2147483648 then ?w mod 4294967296 else ?w mod 4294967296 - 4294967296)"
    by (rule getInt32_field[where pre = "?f0"
          and post = "?f8 @ ?f12 @ ?f14 @ ?f16 @ ?f20 @ ?f24 @ ?f24 @ ?f16 @ ?f16"])
       (simp_all add: hdr_def L)
  have a8: "getInt32 hdr 8 =
      (if ?h mod 4294967296 < 2147483648 then ?h mod 4294967296 else ?h mod 4294967296 - 4294967296)"
    by (rule getInt32_field[where pre = "?f0 @ ?f4"
          and post = "?f12 @ ?f14 @ ?f16 @ ?f20 @ ?f24 @ ?f24 @ ?f16 @ ?f16"])
       (simp_all add: hdr_def L)
  have a12: "getUint16 hdr 12 = 1 mod 65536"
    by (rule getUint16_field[where pre = "?f0 @ ?f4 @ ?f8"
          and post = "?f14 @ ?f16 @ ?f20 @ ?f24 @ ?f24 @ ?f16 @ ?f16"])
       (simp_all add: hdr_def L)
  have a14: "getUint16 hdr 14 = 32 mod 65536"
    by (rule getUint16_field[where pre = "?f0 @ ?f4 @ ?f8 @ ?f12"
          and post = "?f16 @ ?f20 @ ?f24 @ ?f24 @ ?f16 @ ?f16"])
       (simp_all add: hdr_def L)
  have a16: "getUint32 hdr 16 = 0 mod 4294967296"
    by (rule getUint32_field[where pre = "?f0 @ ?f4 @ ?f8 @ ?f12 @ ?f14"
          and post = "?f20 @ ?f24 @ ?f24 @ ?f16 @ ?f16"])
       (simp_all add: hdr_def L)
  have a20: "getUint32 hdr 20 = (?w * ?h * 4) mod 4294967296"
    by (rule getUint32_field[where pre = "?f0 @ ?f4 @ ?f8 @ ?f12 @ ?f14 @ ?f16"
          and post = "?f24 @ ?f24 @ ?f16 @ ?f16"])
       (simp_all add: hdr_def L)
  have a24: "getInt32 hdr 24 =
      (if 2835 mod 4294967296 < (2147483648::int) then 2835 mod 4294967296 else 2835 mod 4294967296 - 4294967296)"
    by (rule getInt32_field[where pre = "?f0 @ ?f4 @ ?f8 @ ?f12 @ ?f14 @ ?f16 @ ?f20"
          and post = "?f24 @ ?f16 @ ?f16"])
       (simp_all add: hdr_def L)
  have a28: "getInt32 hdr 28 =
      (if 2835 mod 4294967296 < (2147483648::int) then 2835 mod 4294967296 else 2835 mod 4294967296 - 4294967296)"
    by (rule getInt32_field[where pre = "?f0 @ ?f4 @ ?f8 @ ?f12 @ ?f14 @ ?f16 @ ?f20 @ ?f24"
          and post = "?f16 @ ?f16"])
       (simp_all add: hdr_def L)
  have a32: "getUint32 hdr 32 = 0 mod 4294967296"
    by (rule getUint32_field[where pre = "?f0 @ ?f4 @ ?f8 @ ?f12 @ ?f14 @ ?f16 @ ?f20 @ ?f24 @ ?f24"
          and post = "?f16"])
       (simp_all add: hdr_def L)
  have a36: "getUint32 hdr 36 = 0 mod 4294967296"
    by (rule getUint32_field[where pre = "?f0 @ ?f4 @ ?f8 @ ?f12 @ ?f14 @ ?f16 @ ?f20 @ ?f24 @ ?f24 @ ?f16"
          and post = "[]"])
       (simp_all add: hdr_def L)
  have w: "?w mod 4294967296 = ?w" and h: "?h mod 4294967296 = ?h"
    using assms by simp_all
  have s: "(?w * ?h * 4) mod 4294967296 = ?w * ?h * 4"
    using assms by simp
  show ?thesis
    using eq len a0 a4 a8 a12 a14 a16 a20 a24 a28 a32 a36 assms(3,4)
    by (simp add: w h s)
qed

theorem createBmpInfoHeader_layout_witness:
  "\<exists>hdr. createBmpInfoHeader 2 3 = Inr hdr \<and> length hdr = 40
           \<and> getUint32 hdr 0 = 40
           \<and> getInt32 hdr 4 = 2 \<and> getInt32 hdr 8 = 3
           \<and> getUint16 hdr 12 = 1 \<and> getUint16 hdr 14 = 32
           \<and> getUint32 hdr 16 = 0
           \<and> getUint32 hdr 20 = 24
           \<and> getInt32 hdr 24 = 2835 \<and> getInt32 hdr 28 = 2835
           \<and> getUint32 hdr 32 = 0 \<and> getUint32 hdr 36 = 0"
  using createBmpInfoHeader_layout[of 2 3] by simp


text \<open>
  Claim C6 as it was stated, for every width and height above 0, fails: at
  \<open>width = height = 32768\<close> the image byte size \<open>2 ^ 32\<close> is stored modulo \<open>2 ^ 32\<close>,
  so that the field at offset 20 is 0.
\<close>

theorem createBmpInfoHeader_size_wraps:
  "createBmpInfoHeader 32768 32768 =
     Inr [40, 0, 0, 0,  0, 128, 0, 0,  0, 128, 0, 0,  1, 0,  32, 0,  0, 0, 0, 0,
          0, 0, 0, 0,  19, 11, 0, 0,  19, 11, 0, 0,  0, 0, 0, 0,  0, 0, 0, 0]
   \<and> getUint32 [40, 0, 0, 0,  0, 128, 0, 0,  0, 128, 0, 0,  1, 0,  32, 0,  0, 0, 0, 0,
          0, 0, 0, 0,  19, 11, 0, 0,  19, 11, 0, 0,  0, 0, 0, 0,  0, 0, 0, 0] 20
       \<noteq> 32768 * 32768 * 4"
  by (simp add: createBmpInfoHeader_bytes le_bytes_4 le_bytes_2 getUint32_def)

section \<open>Properties of the pixel transcoder\<close>

text \<open>Each loop is unfolded one iteration at a time, under computation induction.\<close>

declare convertToBGRA_row.simps [simp del] convertToBGRA_rows.simps [simp del]


lemma row_length: "length (convertToBGRA_row img y x out) = length out"
proof (induction img y x out rule: convertToBGRA_row.induct)
  case (1 img y x out)
  show ?case
  proof (cases "x < width img")
    case True
    then show ?thesis
      using "1.IH"[OF True refl refl refl refl refl refl refl]
      by (subst convertToBGRA_row.simps) (simp add: Let_def)
  next
    case False
    then show ?thesis by (subst convertToBGRA_row.simps) simp
  qed
qed

lemma row_nth_out:
  "i < (y * width img + x) * 4 \<or> (y * width img + width img) * 4 \<le> i \<Longrightarrow>
   convertToBGRA_row img y x out ! i = out ! i"
proof (induction img y x out rule: convertToBGRA_row.induct)
  case (1 img y x out)
  show ?case
  proof (cases "x < width img")
    case True
    have "i < (y * width img + (x + 1)) * 4 \<or> (y * width img + width img) * 4 \<le> i"
      using "1.prems" by auto
    from "1.IH"[OF True refl refl refl refl refl refl refl this]
    show ?thesis
      using True "1.prems"
      by (subst convertToBGRA_row.simps) (auto simp add: Let_def)
  next
    case False
    then show ?thesis by (subst convertToBGRA_row.simps) simp
  qed
qed


lemma row_nth_in:
  assumes "x \<le> x'" and "x' < width img" and "k < 4"
    and "(y * width img + width img) * 4 \<le> length out"
  shows "convertToBGRA_row img y x out ! ((y * width img + x') * 4 + k)
           = read_byte (data img) (((height img - 1 - y) * width img + x') * 4 + chan k)"
  using assms
proof (induction img y x out rule: convertToBGRA_row.induct)
  case (1 img y x out)
  let ?W = "width img"
  let ?s = "((height img - 1 - y) * ?W + x) * 4"
  let ?t = "(y * ?W + x) * 4"
  let ?out = "out[?t := read_byte (data img) (?s + 2), ?t + 1 := read_byte (data img) (?s + 1),
                  ?t + 2 := read_byte (data img) ?s, ?t + 3 := read_byte (data img) (?s + 3)]"
  have x: "x < ?W" using "1.prems" by simp
  have unfold: "convertToBGRA_row img y x out = convertToBGRA_row img y (x + 1) ?out"
    using x by (subst convertToBGRA_row.simps) (simp add: Let_def)
  show ?case
  proof (cases "x' = x")
    case True
    have frame: "convertToBGRA_row img y (x + 1) ?out ! (?t + k) = ?out ! (?t + k)"
      using \<open>k < 4\<close> by (intro row_nth_out) simp
    have inside: "?t + k < length out"
      using x \<open>k < 4\<close> "1.prems"(4) by simp
    from \<open>k < 4\<close> consider "k = 0" | "k = 1" | "k = 2" | "k = 3" by linarith
    then have "?out ! (?t + k) = read_byte (data img) (?s + chan k)"
      using inside by cases (simp_all add: chan_def)
    then show ?thesis
      unfolding unfold True using frame by simp
  next
    case False
    then have "x + 1 \<le> x'" using "1.prems" by simp
    from "1.IH"[OF x refl refl refl refl refl refl refl this "1.prems"(2,3)] "1.prems"(4)
    show ?thesis unfolding unfold by simp
  qed
qed


lemma rows_length: "length (convertToBGRA_rows img y out) = length out"
proof (induction img y out rule: convertToBGRA_rows.induct)
  case (1 img y out)
  show ?case
  proof (cases "y < height img")
    case True
    then show ?thesis
      using "1.IH"[OF True]
      by (subst convertToBGRA_rows.simps) (simp add: row_length)
  next
    case False
    then show ?thesis by (subst convertToBGRA_rows.simps) simp
  qed
qed

lemma rows_nth_out:
  "i < y * width img * 4 \<Longrightarrow> convertToBGRA_rows img y out ! i = out ! i"
proof (induction img y out rule: convertToBGRA_rows.induct)
  case (1 img y out)
  show ?case
  proof (cases "y < height img")
    case True
    have "i < (y + 1) * width img * 4" using "1.prems" by simp
    from "1.IH"[OF True this]
    have "convertToBGRA_rows img y out ! i = convertToBGRA_row img y 0 out ! i"
      using True by (subst convertToBGRA_rows.simps) simp
    also have "\<dots> = out ! i"
      using "1.prems" by (intro row_nth_out) simp
    finally show ?thesis .
  next
    case False
    then show ?thesis by (subst convertToBGRA_rows.simps) simp
  qed
qed

lemma row_block_le:
  "y < (H::nat) \<Longrightarrow> (y * W + W) * 4 \<le> W * H * 4"
proof -
  assume "y < H"
  then have "Suc y \<le> H" by simp
  then have "Suc y * W \<le> H * W" by (rule mult_le_mono1)
  then show ?thesis by (simp add: mult.commute)
qed

lemma rows_nth_in:
  assumes "y \<le> y'" and "y' < height img" and "x' < width img" and "k < 4"
    and "width img * height img * 4 \<le> length out"
  shows "convertToBGRA_rows img y out ! ((y' * width img + x') * 4 + k)
           = read_byte (data img) (((height img - 1 - y') * width img + x') * 4 + chan k)"
  using assms
proof (induction img y out rule: convertToBGRA_rows.induct)
  case (1 img y out)
  let ?W = "width img"
  let ?row = "convertToBGRA_row img y 0 out"
  have y: "y < height img" using "1.prems" by simp
  have unfold: "convertToBGRA_rows img y out = convertToBGRA_rows img (y + 1) ?row"
    using y by (subst convertToBGRA_rows.simps) simp
  show ?case
  proof (cases "y' = y")
    case True
    have "(y * ?W + x') * 4 + k < (y + 1) * ?W * 4"
      using \<open>x' < ?W\<close> \<open>k < 4\<close> by simp
    then have "convertToBGRA_rows img (y + 1) ?row ! ((y * ?W + x') * 4 + k)
                 = ?row ! ((y * ?W + x') * 4 + k)"
      by (rule rows_nth_out)
    moreover have "(y * ?W + ?W) * 4 \<le> length out"
      using row_block_le[OF y, of ?W] "1.prems"(5) by simp
    ultimately show ?thesis
      unfolding unfold True
      using row_nth_in[of 0 x' img k y out] "1.prems"(3,4) by simp
  next
    case False
    then have "y + 1 \<le> y'" using "1.prems" by simp
    from "1.IH"[OF y this "1.prems"(2,3,4)] "1.prems"(5)
    show ?thesis unfolding unfold by (simp add: row_length)
  qed
qed

lemma convertToBGRA_length:
  "length (convertToBGRA img) = width img * height img * 4"
  by (simp add: convertToBGRA_def rows_length Uint8Array_def)

lemma convertToBGRA_nth:
  assumes "y < height img" and "x < width img" and "k < 4"
  shows "convertToBGRA img ! ((y * width img + x) * 4 + k)
           = read_byte (data img) (((height img - 1 - y) * width img + x) * 4 + chan k)"
  unfolding convertToBGRA_def
  using assms by (intro rows_nth_in) (simp_all add: Uint8Array_def)

lemma source_index_less:
  assumes "y < (H::nat)" and "x < W" and "k < 4"
  shows "((H - 1 - y) * W + x) * 4 + k < W * H * 4"
proof -
  have "H - 1 - y < H" using assms(1) by simp
  from row_block_le[OF this, of W] assms(2,3) show ?thesis by simp
qed

lemma chan_less: "k < 4 \<Longrightarrow> chan k < 4"
  by (simp add: chan_def)

lemma chan_chan: "chan (chan k) = k"
  by (simp add: chan_def)

lemma convertToBGRA_nth_valid:
  assumes "y < height img" and "x < width img" and "k < 4"
    and "length (data img) = width img * height img * 4"
  shows "convertToBGRA img ! ((y * width img + x) * 4 + k)
           = data img ! (((height img - 1 - y) * width img + x) * 4 + chan k)"
proof -
  have "((height img - 1 - y) * width img + x) * 4 + chan k < length (data img)"
    using source_index_less[OF assms(1,2) chan_less[OF assms(3)]] assms(4) by simp
  then show ?thesis
    using convertToBGRA_nth[OF assms(1,2,3)] by (simp add: read_byte_def)
qed

text \<open>
  Claim C3. For every image of width \<open>W > 0\<close> and height \<open>H > 0\<close> whose data has
  \<open>W * H * 4\<close> bytes, \<^verbatim>\<open>convertToBGRA\<close> returns as many bytes, and for every row
  \<open>y < H\<close> and column \<open>x < W\<close> the four bytes from \<open>(y * W + x) * 4\<close> on are the source
  bytes at \<open>((H - 1 - y) * W + x) * 4\<close> plus 2, 1, 0 and 3: the channels in the order
  blue, green, red, alpha and the rows bottom-up.
\<close>

theorem convertToBGRA_pixels:
  assumes "0 < W" and "0 < H"
    and "width img = W" and "height img = H" and "length (data img) = W * H * 4"
  shows "length (convertToBGRA img) = W * H * 4 \<and>
         (\<forall>y<H. \<forall>x<W.
            convertToBGRA img ! ((y * W + x) * 4) = data img ! (((H - 1 - y) * W + x) * 4 + 2) \<and>
            convertToBGRA img ! ((y * W + x) * 4 + 1) = data img ! (((H - 1 - y) * W + x) * 4 + 1) \<and>
            convertToBGRA img ! ((y * W + x) * 4 + 2) = data img ! (((H - 1 - y) * W + x) * 4) \<and>
            convertToBGRA img ! ((y * W + x) * 4 + 3) = data img ! (((H - 1 - y) * W + x) * 4 + 3))"
proof (intro conjI allI impI)
  show "length (convertToBGRA img) = W * H * 4"
    using assms(3,4) by (simp add: convertToBGRA_length)
next
  fix y x assume yx: "y < H" "x < W"
  have v: "length (data img) = width img * height img * 4"
    using assms(3,4,5) by simp
  have px: "k < 4 \<Longrightarrow> convertToBGRA img ! ((y * W + x) * 4 + k)
               = data img ! (((H - 1 - y) * W + x) * 4 + chan k)" for k
    using convertToBGRA_nth_valid[of y img x k] yx assms(3,4) v by simp
  show "convertToBGRA img ! ((y * W + x) * 4) = data img ! (((H - 1 - y) * W + x) * 4 + 2)"
    using px[of 0] by (simp add: chan_def)
  show "convertToBGRA img ! ((y * W + x) * 4 + 1) = data img ! (((H - 1 - y) * W + x) * 4 + 1)"
    using px[of 1] by (simp add: chan_def)
  show "convertToBGRA img ! ((y * W + x) * 4 + 2) = data img ! (((H - 1 - y) * W + x) * 4)"
    using px[of 2] by (simp add: chan_def)
  show "convertToBGRA img ! ((y * W + x) * 4 + 3) = data img ! (((H - 1 - y) * W + x) * 4 + 3)"
    using px[of 3] by (simp add: chan_def)
qed

theorem convertToBGRA_pixels_witness:
  "length (convertToBGRA \<lparr>width = 1, height = 2, data = [1, 2, 3, 4, 5, 6, 7, 8]\<rparr>) = 8 \<and>
   convertToBGRA \<lparr>width = 1, height = 2, data = [1, 2, 3, 4, 5, 6, 7, 8]\<rparr> ! 0 = 7 \<and>
   convertToBGRA \<lparr>width = 1, height = 2, data = [1, 2, 3, 4, 5, 6, 7, 8]\<rparr> ! 1 = 6 \<and>
   convertToBGRA \<lparr>width = 1, height = 2, data = [1, 2, 3, 4, 5, 6, 7, 8]\<rparr> ! 2 = 5 \<and>
   convertToBGRA \<lparr>width = 1, height = 2, data = [1, 2, 3, 4, 5, 6, 7, 8]\<rparr> ! 3 = 8 \<and>
   convertToBGRA \<lparr>width = 1, height = 2, data = [1, 2, 3, 4, 5, 6, 7, 8]\<rparr> ! 4 = 3 \<and>
   convertToBGRA \<lparr>width = 1, height = 2, data = [1, 2, 3, 4, 5, 6, 7, 8]\<rparr> ! 5 = 2 \<and>
   convertToBGRA \<lparr>width = 1, height = 2, data = [1, 2, 3, 4, 5, 6, 7, 8]\<rparr> ! 6 = 1 \<and>
   convertToBGRA \<lparr>width = 1, height = 2, data = [1, 2, 3, 4, 5, 6, 7, 8]\<rparr> ! 7 = 4"
proof -
  let ?img = "\<lparr>width = 1, height = 2, data = [1, 2, 3, 4, 5, 6, 7, 8 :: byte]\<rparr>"
  have t: "length (convertToBGRA ?img) = 1 * 2 * 4 \<and>
         (\<forall>y<2. \<forall>x<1.
            convertToBGRA ?img ! ((y * 1 + x) * 4) = data ?img ! (((2 - 1 - y) * 1 + x) * 4 + 2) \<and>
            convertToBGRA ?img ! ((y * 1 + x) * 4 + 1) = data ?img ! (((2 - 1 - y) * 1 + x) * 4 + 1) \<and>
            convertToBGRA ?img ! ((y * 1 + x) * 4 + 2) = data ?img ! (((2 - 1 - y) * 1 + x) * 4) \<and>
            convertToBGRA ?img ! ((y * 1 + x) * 4 + 3) = data ?img ! (((2 - 1 - y) * 1 + x) * 4 + 3))"
    by (rule convertToBGRA_pixels) simp_all
  from t have len: "length (convertToBGRA ?img) = 8" by simp
  have r0: "convertToBGRA ?img ! 0 = 7 \<and> convertToBGRA ?img ! 1 = 6 \<and>
     convertToBGRA ?img ! 2 = 5 \<and> convertToBGRA ?img ! 3 = 8"
    using conjunct2[OF t, rule_format, of 0 0] by (simp add: numeral_2_eq_2 numeral_3_eq_3)
  have r1: "convertToBGRA ?img ! 4 = 3 \<and> convertToBGRA ?img ! 5 = 2 \<and>
     convertToBGRA ?img ! 6 = 1 \<and> convertToBGRA ?img ! 7 = 4"
    using conjunct2[OF t, rule_format, of 1 0] by (simp add: numeral_2_eq_2 numeral_3_eq_3)
  show ?thesis using len r0 r1 by simp
qed

lemma index_split:
  assumes "0 < (W::nat)" and "i < W * H * 4"
  shows "\<exists>y x k. y < H \<and> x < W \<and> k < 4 \<and> i = (y * W + x) * 4 + k"
proof (intro exI conjI)
  let ?p = "i div 4"
  have p: "?p < W * H" using assms(2) by simp
  show "?p div W < H"
    using p assms(1) by (simp add: less_mult_imp_div_less mult.commute)
  show "?p mod W < W" using assms(1) by simp
  show "i mod 4 < 4" by simp
  show "i = (?p div W * W + ?p mod W) * 4 + i mod 4" by simp
qed

text \<open>
  Claim C10. For every image of width \<open>W > 0\<close> and height \<open>H > 0\<close> whose data has
  \<open>W * H * 4\<close> bytes, transcoding the transcoded bytes again, at the same width and
  height, gives the data back.
\<close>

theorem convertToBGRA_involution:
  assumes "0 < W" and "0 < H"
    and "width img = W" and "height img = H" and "length (data img) = W * H * 4"
  shows "convertToBGRA (img\<lparr>data := convertToBGRA img\<rparr>) = data img"
proof (rule nth_equalityI)
  let ?once = "convertToBGRA img"
  let ?img' = "img\<lparr>data := ?once\<rparr>"
  have v: "length (data img) = width img * height img * 4"
    using assms(3,4,5) by simp
  have v': "length (data ?img') = width ?img' * height ?img' * 4"
    by (simp add: convertToBGRA_length)
  show len: "length (convertToBGRA ?img') = length (data img)"
    using v by (simp add: convertToBGRA_length)
  fix i assume "i < length (convertToBGRA ?img')"
  then have "i < W * H * 4" using len assms(5) by simp
  from index_split[OF assms(1) this]
  obtain y x k where yxk: "y < H" "x < W" "k < 4" and i: "i = (y * W + x) * 4 + k"
    by blast
  have y': "H - 1 - y < H" using yxk(1) by simp
  have "convertToBGRA ?img' ! i = ?once ! (((H - 1 - y) * W + x) * 4 + chan k)"
    using convertToBGRA_nth_valid[of y ?img' x k] yxk assms(3,4) v' unfolding i by simp
  also have "\<dots> = data img ! (((H - 1 - (H - 1 - y)) * W + x) * 4 + chan (chan k))"
    using convertToBGRA_nth_valid[of "H - 1 - y" img x "chan k"] y' yxk(2) chan_less[OF yxk(3)]
      assms(3,4) v by simp
  also have "H - 1 - (H - 1 - y) = y" using yxk(1) by simp
  finally show "convertToBGRA ?img' ! i = data img ! i"
    unfolding i by (simp add: chan_chan)
qed

theorem convertToBGRA_involution_witness:
  "convertToBGRA (\<lparr>width = 1, height = 2, data = [1, 2, 3, 4, 5, 6, 7, 8]\<rparr>
      \<lparr>data := convertToBGRA \<lparr>width = 1, height = 2, data = [1, 2, 3, 4, 5, 6, 7, 8]\<rparr>\<rparr>)
     = [1, 2, 3, 4, 5, 6, 7, 8]"
  using convertToBGRA_involution[of 1 2 "\<lparr>width = 1, height = 2, data = [1, 2, 3, 4, 5, 6, 7, 8]\<rparr>"]
  by simp


section \<open>Properties of the assembly\<close>

lemma set_array_three:
  "and_then (set_array (Uint8Array (length a + length b + length c)) a 0) (\<lambda>buffer.
   and_then (set_array buffer b (length a)) (\<lambda>buffer.
   set_array buffer c (length a + length b))) = Inr (a @ b @ c)"
  by (simp add: set_array_def store_bytes_def Uint8Array_def)

lemma createBmpFileHeader_length:
  "createBmpFileHeader n = Inr fh \<Longrightarrow> length fh = 14"
  by (auto simp add: createBmpFileHeader_bytes length_le_bytes)

lemma createBmpInfoHeader_length:
  "createBmpInfoHeader w h = Inr ih \<Longrightarrow> length ih = 40"
  by (auto simp add: createBmpInfoHeader_bytes length_le_bytes)

lemma bmpData_bytes:
  assumes "createBmpFileHeader (int (length (data img))) = Inr fh"
    and "createBmpInfoHeader (int w) (int h) = Inr ih"
  shows "bmpData w h img = Inr (fh @ ih @ convertToBGRA img)"
  unfolding bmpData_def assms
  by (simp add: Let_def set_array_three)

text \<open>
  Claim C4. For every image of width \<open>W > 0\<close> and height \<open>H > 0\<close> whose data has
  \<open>W * H * 4\<close> bytes, the buffer \<^verbatim>\<open>bmpData\<close> that lines 139 to 142 assemble is the
  file header, then the info header, then the transcoded pixels, and has
  \<open>54 + W * H * 4\<close> bytes.
\<close>

theorem bmpData_layout:
  assumes "0 < W" and "0 < H"
    and "width img = W" and "height img = H" and "length (data img) = W * H * 4"
  shows "\<exists>fileHeader infoHeader.
           createBmpFileHeader (int (W * H * 4)) = Inr fileHeader \<and>
           createBmpInfoHeader (int W) (int H) = Inr infoHeader \<and>
           bmpData W H img = Inr (fileHeader @ infoHeader @ convertToBGRA img) \<and>
           length (fileHeader @ infoHeader @ convertToBGRA img) = 54 + W * H * 4"
proof -
  obtain fh where fh: "createBmpFileHeader (int (W * H * 4)) = Inr fh"
    by (simp add: createBmpFileHeader_bytes)
  obtain ih where ih: "createBmpInfoHeader (int W) (int H) = Inr ih"
    by (simp add: createBmpInfoHeader_bytes)
  have "bmpData W H img = Inr (fh @ ih @ convertToBGRA img)"
    using fh ih assms(5) by (intro bmpData_bytes) simp_all
  moreover have "length (fh @ ih @ convertToBGRA img) = 54 + W * H * 4"
    using createBmpFileHeader_length[OF fh] createBmpInfoHeader_length[OF ih] assms(3,4)
    by (simp add: convertToBGRA_length)
  ultimately show ?thesis using fh ih by blast
qed

theorem bmpData_layout_witness:
  "\<exists>fileHeader infoHeader.
     createBmpFileHeader 4 = Inr fileHeader \<and>
     createBmpInfoHeader 1 1 = Inr infoHeader \<and>
     bmpData 1 1 \<lparr>width = 1, height = 1, data = [10, 20, 30, 40]\<rparr>
       = Inr (fileHeader @ infoHeader
              @ convertToBGRA \<lparr>width = 1, height = 1, data = [10, 20, 30, 40]\<rparr>) \<and>
     length (fileHeader @ infoHeader
             @ convertToBGRA \<lparr>width = 1, height = 1, data = [10, 20, 30, 40]\<rparr>) = 58"
  using bmpData_layout[of 1 1 "\<lparr>width = 1, height = 1, data = [10, 20, 30, 40]\<rparr>"]
  by simp


section \<open>Properties of the conversion entry point\<close>

text \<open>The \<^verbatim>\<open>try\<close> block on an image that the platform decodes.\<close>

lemma try_block_decoded:
  assumes "image_load platform file = Some (w, h)" and "canvas_context platform"
    and "getImageData platform file w h = Inr img"
    and "createBmpFileHeader (int (length (data img))) = Inr fh"
    and "createBmpInfoHeader (int w) (int h) = Inr ih"
  shows "try_block platform world file u =
           (Inr \<lparr>name = replace (File.name file) ''.png'' ''.bmp'',
                 url = length (object_urls world)\<rparr>,
            world\<lparr>object_urls := object_urls world
                       @ [\<lparr>bytes = fh @ ih @ convertToBGRA img, type = ''image/bmp''\<rparr>],
                  image_loads := image_loads world @ [u]\<rparr>)"
  using assms(1,2,3) bmpData_bytes[OF assms(4,5)]
  by (simp add: try_block_def createObjectURL_def Let_def)


lemma convertToBGRA_1x1:
  "convertToBGRA \<lparr>width = Suc 0, height = Suc 0, data = [a, b, c, d]\<rparr> = [c, b, a, d]"
  by (simp add: convertToBGRA_def convertToBGRA_rows.simps convertToBGRA_row.simps
        Uint8Array_def read_byte_def Let_def numeral_eq_Suc)

lemma createBmpFileHeader_4:
  "createBmpFileHeader 4 = Inr [0x42, 0x4D, 58, 0, 0, 0, 0, 0, 0, 0, 54, 0, 0, 0]"
  by (simp add: createBmpFileHeader_bytes le_bytes_4)

lemma createBmpInfoHeader_1_1:
  "createBmpInfoHeader 1 1 =
     Inr [40, 0, 0, 0, 1, 0, 0, 0, 1, 0, 0, 0, 1, 0, 32, 0, 0, 0, 0, 0,
          4, 0, 0, 0, 19, 11, 0, 0, 19, 11, 0, 0, 0, 0, 0, 0, 0, 0, 0, 0]"
  by (simp add: createBmpInfoHeader_bytes le_bytes_4 le_bytes_2)

lemma try_block_1x1:
  "try_block decodes_1x1 world file u =
     (Inr \<lparr>name = replace (File.name file) ''.png'' ''.bmp'',
           url = length (object_urls world)\<rparr>,
      world\<lparr>object_urls := object_urls world @
           [\<lparr>bytes = [0x42, 0x4D, 58, 0, 0, 0, 0, 0, 0, 0, 54, 0, 0, 0,
                    40, 0, 0, 0, 1, 0, 0, 0, 1, 0, 0, 0, 1, 0, 32, 0, 0, 0, 0, 0, 4, 0, 0, 0,
                    19, 11, 0, 0, 19, 11, 0, 0, 0, 0, 0, 0, 0, 0, 0, 0,
                    30, 20, 10, 40],
            type = ''image/bmp''\<rparr>],
          image_loads := image_loads world @ [u]\<rparr>)"
proof -
  let ?img = "\<lparr>width = 1, height = 1, data = [10, 20, 30, 40 :: byte]\<rparr>"
  have a: "image_load decodes_1x1 file = Some (1, 1)"
    and b: "canvas_context decodes_1x1"
    and c: "getImageData decodes_1x1 file 1 1 = Inr ?img"
    by (simp_all add: decodes_1x1_def)
  have d: "createBmpFileHeader (int (length (data ?img)))
             = Inr [0x42, 0x4D, 58, 0, 0, 0, 0, 0, 0, 0, 54, 0, 0, 0]"
    using createBmpFileHeader_4 by simp
  have e: "createBmpInfoHeader (int 1) (int 1)
             = Inr [40, 0, 0, 0, 1, 0, 0, 0, 1, 0, 0, 0, 1, 0, 32, 0, 0, 0, 0, 0,
                    4, 0, 0, 0, 19, 11, 0, 0, 19, 11, 0, 0, 0, 0, 0, 0, 0, 0, 0, 0]"
    using createBmpInfoHeader_1_1 by simp
  show ?thesis
    using try_block_decoded[OF a b c d e, of world u]
    by (simp add: convertToBGRA_1x1)
qed

lemma try_block_load_fails:
  "try_block load_fails world file u =
     (Inl ImageLoadError, world\<lparr>image_loads := image_loads world @ [u]\<rparr>)"
  by (simp add: try_block_def load_fails_def)

lemma convertPngToBmp_unfold:
  assumes "includes_str (type file) ''png''"
    and "try_block platform (world\<lparr>object_urls := object_urls world @ [Blob.truncate file]\<rparr>)
             file (length (object_urls world)) = (completion, world')"
  shows "convertPngToBmp platform world file =
             (Inr \<lparr>name = replace (File.name file) ''.png'' ''.bmp'',
                   url = length (object_urls world')\<rparr>,
              world'\<lparr>object_urls := object_urls world' @ [Blob.truncate file]\<rparr>)"
  using assms by (simp add: convertPngToBmp_def createObjectURL_def Let_def)

text \<open>
  Whatever the \<^verbatim>\<open>try\<close> block did, a file that passes the format check gets a
  success whose object URL locates the file itself.
\<close>

lemma convertPngToBmp_locates_source:
  assumes "includes_str (type file) ''png''"
  shows "\<exists>u world'.
           convertPngToBmp platform world file =
             (Inr \<lparr>name = replace (File.name file) ''.png'' ''.bmp'', url = u\<rparr>, world') \<and>
           u < length (object_urls world') \<and> object_urls world' ! u = Blob.truncate file"
proof -
  obtain completion w where
    "try_block platform (world\<lparr>object_urls := object_urls world @ [Blob.truncate file]\<rparr>)
       file (length (object_urls world)) = (completion, w)"
    by (cases "try_block platform
                 (world\<lparr>object_urls := object_urls world @ [Blob.truncate file]\<rparr>)
                 file (length (object_urls world))")
  from convertPngToBmp_unfold[OF assms this] show ?thesis
    by simp
qed

lemma photo_png_type: "includes_str (type photo_png) ''png''"
  by (simp add: photo_png_def)


text \<open>The test of line 102 holds when \<^verbatim>\<open>png\<close> stands somewhere in the type.\<close>

lemma includes_str_sublist: "includes_str s searchString \<longleftrightarrow> sublist searchString s"
  by (induction s) (auto simp add: sublist_Cons_right)

text \<open>
  Claim C8, as amended. For every file whose type does not contain the characters
  \<^verbatim>\<open>png\<close> in a row, \<^verbatim>\<open>convertPngToBmp\<close> throws the unsupported-format error and
  leaves the world as it was: no object URL is created and no image load is started.
\<close>

theorem convertPngToBmp_not_png:
  assumes "\<not> sublist ''png'' (type file)"
  shows "convertPngToBmp platform world file = (Inl OnlyPngSupported, world)"
proof -
  from assms have "\<not> includes_str (type file) ''png''"
    by (simp add: includes_str_sublist)
  then show ?thesis
    by (simp add: convertPngToBmp_def)
qed

theorem convertPngToBmp_not_png_witness:
  "\<not> sublist ''png'' ''image/jpeg'' \<and>
   convertPngToBmp decodes_1x1 world0 (photo_png\<lparr>type := ''image/jpeg''\<rparr>)
     = (Inl OnlyPngSupported, world0)"
proof -
  have jpeg: "\<not> sublist ''png'' (type (photo_png\<lparr>type := ''image/jpeg''\<rparr>))"
    by (simp add: sublist_Cons_right)
  from convertPngToBmp_not_png[OF jpeg, of decodes_1x1 world0] jpeg
  show ?thesis by simp
qed

text \<open>
  Claim C8 as it was stated, for every type that does not indicate PNG, fails: the type
  \<^verbatim>\<open>text/x-pngnotes\<close> is not a PNG type, but \<^verbatim>\<open>png\<close> stands in it, so that the file
  passes the test of line 102. Object URLs are created, an image load is started and,
  where the bytes decode, the BMP is built.
\<close>

theorem png_inside_type_accepted:
  "convertPngToBmp decodes_1x1 world0 (photo_png\<lparr>type := ''text/x-pngnotes''\<rparr>) =
     (Inr \<lparr>name = ''photo.bmp'', url = 2\<rparr>,
      \<lparr>object_urls =
         [\<lparr>bytes = [0x89, 0x50, 0x4E, 0x47, 0x0D, 0x0A, 0x1A, 0x0A],
           type = ''text/x-pngnotes''\<rparr>,
          \<lparr>bytes = [0x42, 0x4D, 58, 0, 0, 0, 0, 0, 0, 0, 54, 0, 0, 0,
                    40, 0, 0, 0, 1, 0, 0, 0, 1, 0, 0, 0, 1, 0, 32, 0, 0, 0, 0, 0, 4, 0, 0, 0,
                    19, 11, 0, 0, 19, 11, 0, 0, 0, 0, 0, 0, 0, 0, 0, 0,
                    30, 20, 10, 40],
            type = ''image/bmp''\<rparr>,
          \<lparr>bytes = [0x89, 0x50, 0x4E, 0x47, 0x0D, 0x0A, 0x1A, 0x0A],
           type = ''text/x-pngnotes''\<rparr>],
       image_loads = [0]\<rparr>)"
proof -
  have inside: "includes_str (type (photo_png\<lparr>type := ''text/x-pngnotes''\<rparr>)) ''png''"
    by simp
  show ?thesis
    by (simp add: convertPngToBmp_unfold[OF inside try_block_1x1])
       (simp add: photo_png_def world0_def Blob.truncate_def)
qed

text \<open>
  Claim C1, evaluated on the code. The file \<open>photo_png\<close> passes the format check and
  decodes to one pixel. The \<^verbatim>\<open>try\<close> block registers the 58 bytes of the BMP as object
  URL 1, but the \<^verbatim>\<open>return\<close> of the \<^verbatim>\<open>finally\<close> block replaces its result: the
  function returns object URL 2, which locates the source file, of type
  \<^verbatim>\<open>image/png\<close>, and not the BMP.
\<close>

theorem convertPngToBmp_returns_source_file:
  "convertPngToBmp decodes_1x1 world0 photo_png =
     (Inr \<lparr>name = ''photo.bmp'', url = 2\<rparr>,
      \<lparr>object_urls =
         [\<lparr>bytes = [0x89, 0x50, 0x4E, 0x47, 0x0D, 0x0A, 0x1A, 0x0A], type = ''image/png''\<rparr>,
          \<lparr>bytes = [0x42, 0x4D, 58, 0, 0, 0, 0, 0, 0, 0, 54, 0, 0, 0,
                    40, 0, 0, 0, 1, 0, 0, 0, 1, 0, 0, 0, 1, 0, 32, 0, 0, 0, 0, 0, 4, 0, 0, 0,
                    19, 11, 0, 0, 19, 11, 0, 0, 0, 0, 0, 0, 0, 0, 0, 0,
                    30, 20, 10, 40],
            type = ''image/bmp''\<rparr>,
          \<lparr>bytes = [0x89, 0x50, 0x4E, 0x47, 0x0D, 0x0A, 0x1A, 0x0A], type = ''image/png''\<rparr>],
       image_loads = [0]\<rparr>)"
  by (simp add: convertPngToBmp_unfold[OF photo_png_type try_block_1x1])
     (simp add: photo_png_def world0_def Blob.truncate_def)


text \<open>
  Claim C2, evaluated on the code. On a platform where the image load fails, the
  \<^verbatim>\<open>try\<close> block throws the load error, and the \<^verbatim>\<open>return\<close> of the
  \<^verbatim>\<open>finally\<close> block replaces it: the function returns a success whose object URL
  locates the source file.
\<close>

theorem convertPngToBmp_swallows_load_error:
  "try_block load_fails
      \<lparr>object_urls = [\<lparr>bytes = [0x89, 0x50, 0x4E, 0x47, 0x0D, 0x0A, 0x1A, 0x0A], type = ''image/png''\<rparr>],
       image_loads = []\<rparr> photo_png 0
     = (Inl ImageLoadError,
        \<lparr>object_urls = [\<lparr>bytes = [0x89, 0x50, 0x4E, 0x47, 0x0D, 0x0A, 0x1A, 0x0A], type = ''image/png''\<rparr>],
         image_loads = [0]\<rparr>)
   \<and> convertPngToBmp load_fails world0 photo_png =
     (Inr \<lparr>name = ''photo.bmp'', url = 1\<rparr>,
      \<lparr>object_urls =
         [\<lparr>bytes = [0x89, 0x50, 0x4E, 0x47, 0x0D, 0x0A, 0x1A, 0x0A], type = ''image/png''\<rparr>,
          \<lparr>bytes = [0x89, 0x50, 0x4E, 0x47, 0x0D, 0x0A, 0x1A, 0x0A], type = ''image/png''\<rparr>],
       image_loads = [0]\<rparr>)"
  by (simp add: convertPngToBmp_unfold[OF photo_png_type try_block_load_fails] try_block_load_fails)
     (simp add: photo_png_def world0_def Blob.truncate_def)


section \<open>The output name\<close>










section \<open>An image without pixels\<close>



end
